theory Spec2Isabelle
  imports Main "HOL-Library.Word" "HOL-Library.Sublist"
begin

section \<open>Scripts of the chonker8 repository\<close>

text \<open>
  The repository holds four Python scripts: a model downloader (\<open>download_trocr_onnx.py\<close>),
  a Kitty graphics emitter (\<open>kitty_test_simple.py\<close>) and two drivers that run the
  renderer binary and look for marker strings in what it printed
  (\<open>demo_chonker8_hot.py\<close>, \<open>test_table_pdf.py\<close>). Each is embedded as a function of an
  explicit world: the file system, the HTTP server's answers and the refusals of the
  operating system are inputs, and every exception of the Python is a value.
\<close>

subsection \<open>Bytes, files and the operating system\<close>

type_synonym byte = "8 word"
type_synonym bytes = "byte list"

text \<open>A path is the list of its components below the working directory, as \<open>pathlib\<close>
  keeps it: \<open>Path("models") / "trocr.onnx"\<close> is \<open>[''models'', ''trocr.onnx'']\<close>.\<close>

type_synonym path = "string list"

datatype node = File bytes | Dir

type_synonym filesystem = "path \<rightharpoonup> node"

datatype error =
    ConnectionError | HTTPError | ChunkedEncodingError | ValueError
  | FileNotFoundError | FileExistsError | IsADirectoryError | NotADirectoryError
  | PermissionError | OSError | TimeoutExpired

text \<open>The calls the operating system can refuse. A write is named by the number of
  bytes handed to the file object before it, a close by the number handed in all.\<close>

datatype syscall =
    Mkdir path | Rename path path | OpenWrite path | OpenRead path
  | Write path nat | Close path nat

text \<open>The value of the \<open>content-length\<close> header as \<open>int(...)\<close> sees it: absent, a
  string that \<open>int\<close> parses, or one on which it raises \<open>ValueError\<close>.\<close>

datatype header = NoHeader | HeaderInt int | HeaderBad

text \<open>What \<open>response.iter_content\<close> yields: chunks, until the body ends or the
  connection breaks.\<close>

datatype stream = End | Chunk bytes stream | Broken error

record response =
  status_code :: nat
  content_length :: header
  body :: stream

text \<open>
  The world of a script run. \<open>fault\<close> is the operating system refusing a call for a reason
  the file-system map does not show (permissions, a full disk). \<open>on_disk\<close> says, for a file
  whose write or close was refused after \<open>n\<close> bytes had been handed to the buffered file
  object, how many of them reached the file. \<open>net\<close> is what \<open>requests.get\<close> meets at a
  URL; \<open>spawn\<close> is an external program as a black box: it cannot be launched, or it runs
  and leaves the file system changed.
\<close>

record world =
  fs :: filesystem
  fault :: "syscall \<Rightarrow> error option"
  on_disk :: "path \<Rightarrow> nat \<Rightarrow> nat"
  net :: "string \<Rightarrow> error + response"
  spawn :: "string list \<Rightarrow> filesystem \<Rightarrow> error + filesystem"

definition look :: "world \<Rightarrow> path \<Rightarrow> node option" where
  "look w p = (if p = [] then Some Dir else fs w p)"

text \<open>Walking down the components of a directory path from the working directory: a
  missing component is \<open>ENOENT\<close>, a file in the way \<open>ENOTDIR\<close>.\<close>

fun enter :: "filesystem \<Rightarrow> path \<Rightarrow> path \<Rightarrow> error option" where
  "enter m here [] = None"
| "enter m here (c # cs) =
     (case m (here @ [c]) of
        None \<Rightarrow> Some FileNotFoundError
      | Some (File b) \<Rightarrow> Some NotADirectoryError
      | Some Dir \<Rightarrow> enter m (here @ [c]) cs)"

definition parent_error :: "world \<Rightarrow> path \<Rightarrow> error option" where
  "parent_error w p = enter (fs w) [] (butlast p)"

text \<open>\<open>Path(p).exists()\<close>.\<close>

definition exists :: "world \<Rightarrow> path \<Rightarrow> bool" where
  "exists w p = (parent_error w p = None \<and> look w p \<noteq> None)"

definition create :: "world \<Rightarrow> syscall \<Rightarrow> path \<Rightarrow> node \<Rightarrow> error + world" where
  "create w call p n =
     (case fault w call of
        Some e \<Rightarrow> Inl e
      | None \<Rightarrow> Inr (w\<lparr>fs := (fs w)(p \<mapsto> n)\<rparr>))"

text \<open>\<open>open(p, 'wb')\<close>: creates the file or truncates it.\<close>

definition open_wb :: "world \<Rightarrow> path \<Rightarrow> error + world" where
  "open_wb w p =
     (case parent_error w p of
        Some e \<Rightarrow> Inl e
      | None \<Rightarrow>
          (case look w p of
             Some Dir \<Rightarrow> Inl IsADirectoryError
           | Some (File old) \<Rightarrow> create w (OpenWrite p) p (File [])
           | None \<Rightarrow> create w (OpenWrite p) p (File [])))"

text \<open>\<open>open(p, 'rb').read()\<close>.\<close>

definition read_file :: "world \<Rightarrow> path \<Rightarrow> error + bytes" where
  "read_file w p =
     (case parent_error w p of
        Some e \<Rightarrow> Inl e
      | None \<Rightarrow>
          (case look w p of
             None \<Rightarrow> Inl FileNotFoundError
           | Some Dir \<Rightarrow> Inl IsADirectoryError
           | Some (File b) \<Rightarrow>
               (case fault w (OpenRead p) of Some e \<Rightarrow> Inl e | None \<Rightarrow> Inr b)))"

text \<open>\<open>Path(p).mkdir(exist_ok=True)\<close>.\<close>

definition mkdir_exist_ok :: "world \<Rightarrow> path \<Rightarrow> error + world" where
  "mkdir_exist_ok w p =
     (case parent_error w p of
        Some e \<Rightarrow> Inl e
      | None \<Rightarrow>
          (case look w p of
             Some Dir \<Rightarrow> Inr w
           | Some (File b) \<Rightarrow> Inl FileExistsError
           | None \<Rightarrow> create w (Mkdir p) p Dir))"

text \<open>\<open>os.rename(src, dst)\<close> on POSIX: the node at \<open>src\<close>, with everything below it,
  takes the place of whatever was at \<open>dst\<close>. A file replaces a file silently, a
  directory replaces only an empty directory, and a path renamed to itself stays.\<close>

definition move :: "filesystem \<Rightarrow> path \<Rightarrow> path \<Rightarrow> filesystem" where
  "move m src dst =
     (\<lambda>p. if prefix dst p then m (src @ drop (length dst) p)
          else if prefix src p then None
          else m p)"

definition nonempty_dir :: "filesystem \<Rightarrow> path \<Rightarrow> bool" where
  "nonempty_dir m p \<longleftrightarrow> (\<exists>q. q \<noteq> [] \<and> m (p @ q) \<noteq> None)"

definition renamed :: "world \<Rightarrow> path \<Rightarrow> path \<Rightarrow> error + world" where
  "renamed w src dst =
     (case fault w (Rename src dst) of
        Some e \<Rightarrow> Inl e
      | None \<Rightarrow> Inr (w\<lparr>fs := move (fs w) src dst\<rparr>))"

definition os_rename :: "world \<Rightarrow> path \<Rightarrow> path \<Rightarrow> error + world" where
  "os_rename w src dst =
     (if src = [] \<or> dst = [] then Inl OSError
      else case parent_error w src of
        Some e \<Rightarrow> Inl e
      | None \<Rightarrow>
          (case look w src of
             None \<Rightarrow> Inl FileNotFoundError
           | Some n \<Rightarrow>
               (case parent_error w dst of
                  Some e \<Rightarrow> Inl e
                | None \<Rightarrow>
                    if src = dst then Inr w
                    else
                      (case (n, look w dst) of
                         (File b, Some Dir) \<Rightarrow> Inl IsADirectoryError
                       | (File b, Some (File old)) \<Rightarrow> renamed w src dst
                       | (File b, None) \<Rightarrow> renamed w src dst
                       | (Dir, Some (File old)) \<Rightarrow> Inl NotADirectoryError
                       | (Dir, Some Dir) \<Rightarrow>
                           if strict_prefix src dst \<or> nonempty_dir (fs w) dst
                           then Inl OSError else renamed w src dst
                       | (Dir, None) \<Rightarrow>
                           if strict_prefix src dst then Inl OSError
                           else renamed w src dst))))"

text \<open>\<open>p.stat().st_size\<close>. The size a directory reports is not modelled; the script
  asks only for the file it has just written.\<close>

definition stat_size :: "world \<Rightarrow> path \<Rightarrow> error + nat" where
  "stat_size w p =
     (case parent_error w p of
        Some e \<Rightarrow> Inl e
      | None \<Rightarrow>
          (case look w p of
             None \<Rightarrow> Inl FileNotFoundError
           | Some Dir \<Rightarrow> Inr 0
           | Some (File b) \<Rightarrow> Inr (length b)))"

subsection \<open>download\_trocr\_onnx.py\<close>

text \<open>
  What the script prints. \<open>Progress d t\<close> is the line
  \<open>Downloading: P% (d/t bytes)\<close> with \<open>P = d / t * 100\<close> to one decimal; the other
  constructors are the script's messages with their arguments. \<open>Text\<close> carries the
  wording of a fixed line, without its emoji and blank lines.
\<close>

datatype msg =
    Text string
  | Progress nat int
  | Newline
  | BackingUp path
  | DownloadingFrom string
  | Downloaded path
  | FileSize nat
  | DownloadedEncoder path
  | Failed error

text \<open>\<open>int(response.headers.get('content-length', 0))\<close>.\<close>

definition total_size_of :: "header \<Rightarrow> error + int" where
  "total_size_of h =
     (case h of NoHeader \<Rightarrow> Inr 0 | HeaderInt n \<Rightarrow> Inr n | HeaderBad \<Rightarrow> Inl ValueError)"

text \<open>\<open>response.raise_for_status()\<close> raises on a 4xx or 5xx status.\<close>

definition raise_for_status :: "response \<Rightarrow> error option" where
  "raise_for_status r =
     (if 400 \<le> status_code r \<and> status_code r < 600 then Some HTTPError else None)"

text \<open>
  The loop of \<open>download_file\<close> over the chunks. \<open>handed\<close> is what has been passed to
  \<open>f.write\<close>, \<open>downloaded\<close> the script's counter. The file object is buffered: a write
  the system refuses raises from \<open>f.write\<close>, with the chunk handed over and nothing
  printed for it. The results are the exception that ended the loop, whether it was a
  refused write, and the state of the loop's variables.
\<close>

fun write_chunks ::
  "path \<Rightarrow> int \<Rightarrow> stream \<Rightarrow> world \<Rightarrow> bytes \<Rightarrow> nat \<Rightarrow> msg list
     \<Rightarrow> error option \<times> bool \<times> bytes \<times> nat \<times> msg list" where
  "write_chunks destination total_size End w handed downloaded out =
     (None, False, handed, downloaded, out)"
| "write_chunks destination total_size (Broken e) w handed downloaded out =
     (Some e, False, handed, downloaded, out)"
| "write_chunks destination total_size (Chunk chunk rest) w handed downloaded out =
     (if chunk = [] then write_chunks destination total_size rest w handed downloaded out
      else case fault w (Write destination (length handed)) of
        Some e \<Rightarrow> (Some e, True, handed @ chunk, downloaded, out)
      | None \<Rightarrow>
          write_chunks destination total_size rest w
            (handed @ chunk)
            (downloaded + length chunk)
            (if total_size > 0
             then out @ [Progress (downloaded + length chunk) total_size]
             else out))"

text \<open>
  Leaving the \<open>with\<close> block closes the file, on every path. When neither a write nor the
  close is refused the file holds all that was handed over; otherwise it holds the first
  \<open>on_disk\<close> bytes of it. An exception raised by the close replaces the one that was
  under way.
\<close>

definition close_file :: "world \<Rightarrow> path \<Rightarrow> bytes \<Rightarrow> bool \<Rightarrow> error option \<times> world" where
  "close_file w destination handed write_refused =
     (case fault w (Close destination (length handed)) of
        Some e \<Rightarrow>
          (Some e,
           w\<lparr>fs := (fs w)(destination \<mapsto>
                  File (take (on_disk w destination (length handed)) handed))\<rparr>)
      | None \<Rightarrow>
          (None,
           w\<lparr>fs := (fs w)(destination \<mapsto>
                  File (if write_refused
                        then take (on_disk w destination (length handed)) handed
                        else handed))\<rparr>))"

definition download_file :: "world \<Rightarrow> string \<Rightarrow> path \<Rightarrow> (error + path) \<times> world \<times> msg list" where
  "download_file w url destination =
     (case net w url of
        Inl e \<Rightarrow> (Inl e, w, [])
      | Inr response \<Rightarrow>
          (case raise_for_status response of
             Some e \<Rightarrow> (Inl e, w, [])
           | None \<Rightarrow>
               (case total_size_of (content_length response) of
                  Inl e \<Rightarrow> (Inl e, w, [])
                | Inr total_size \<Rightarrow>
                    (case open_wb w destination of
                       Inl e \<Rightarrow> (Inl e, w, [])
                     | Inr w1 \<Rightarrow>
                         (case write_chunks destination total_size (body response) w1 [] 0 [] of
                            (raised, write_refused, handed, downloaded, out) \<Rightarrow>
                              (case close_file w1 destination handed write_refused of
                                 (Some e, w2) \<Rightarrow> (Inl e, w2, out)
                               | (None, w2) \<Rightarrow>
                                   (case raised of
                                      Some e \<Rightarrow> (Inl e, w2, out)
                                    | None \<Rightarrow> (Inr destination, w2, out @ [Newline]))))))))"

definition models_dir :: path where
  "models_dir = [''models'']"

definition existing_model :: path where
  "existing_model = models_dir @ [''trocr.onnx'']"

definition backup_path :: path where
  "backup_path = models_dir @ [''trocr_pytorch.pth'']"

definition dest_path :: path where
  "dest_path = models_dir @ [''trocr.onnx'']"

definition encoder_path :: path where
  "encoder_path = models_dir @ [''trocr_encoder.onnx'']"

definition onnx_url :: string where
  "onnx_url =
     ''https://huggingface.co/Xenova/trocr-small-printed/resolve/main/onnx/decoder_model_merged.onnx''"

definition encoder_url :: string where
  "encoder_url =
     ''https://huggingface.co/Xenova/trocr-small-printed/resolve/main/onnx/encoder_model.onnx''"

text \<open>Lines 38 to 43 of \<open>main\<close>: the message is printed before the rename is tried.\<close>

definition backup_existing :: "world \<Rightarrow> error option \<times> world \<times> msg list" where
  "backup_existing w =
     (if exists w existing_model then
        (case os_rename w existing_model backup_path of
           Inl e \<Rightarrow> (Some e, w, [BackingUp backup_path])
         | Inr w' \<Rightarrow> (None, w', [BackingUp backup_path]))
      else (None, w, []))"

text \<open>The body of the \<open>try\<close> of \<open>main\<close>, lines 59 to 76.\<close>

definition try_block :: "world \<Rightarrow> error option \<times> world \<times> msg list" where
  "try_block w =
     (case download_file w onnx_url dest_path of
        (Inl e, w1, out1) \<Rightarrow> (Some e, w1, DownloadingFrom onnx_url # out1)
      | (Inr d, w1, out1) \<Rightarrow>
          (case stat_size w1 dest_path of
             Inl e \<Rightarrow> (Some e, w1, DownloadingFrom onnx_url # out1 @ [Downloaded dest_path])
           | Inr sz \<Rightarrow>
               (case download_file w1 encoder_url encoder_path of
                  (Inl e, w2, out2) \<Rightarrow>
                    (Some e, w2,
                     DownloadingFrom onnx_url # out1
                       @ [Downloaded dest_path, FileSize sz, Text ''Downloading encoder model...'']
                       @ out2)
                | (Inr d2, w2, out2) \<Rightarrow>
                    (None, w2,
                     DownloadingFrom onnx_url # out1
                       @ [Downloaded dest_path, FileSize sz, Text ''Downloading encoder model...'']
                       @ out2 @ [DownloadedEncoder encoder_path]))))"

text \<open>The process ends with the exit code \<open>main\<close> returns (\<open>exit(main())\<close>), or with an
  exception nothing caught.\<close>

datatype ending = Exit int | Uncaught error

definition intro_lines :: "msg list" where
  "intro_lines =
     [Text ''Downloading TrOCR ONNX models from Hugging Face...'',
      Text ''Option 1: TrOCR Small (printed text, 244MB)'',
      Text ''Option 2: TrOCR Base (handwritten text, 1.3GB)'',
      Text ''Downloading TrOCR Small model (good for printed text)...'']"

definition hint_lines :: "msg list" where
  "hint_lines =
     [Text ''Alternative: You can manually download ONNX models from:'',
      Text ''  - https://huggingface.co/Xenova/trocr-small-printed'',
      Text ''  - https://huggingface.co/Xenova/trocr-base-handwritten'',
      Text ''Or convert the PyTorch model using:'',
      Text ''  python -m transformers.onnx --model=microsoft/trocr-base-printed models/'']"

definition main :: "world \<Rightarrow> ending \<times> world \<times> msg list" where
  "main w =
     (case mkdir_exist_ok w models_dir of
        Inl e \<Rightarrow> (Uncaught e, w, [Text ''TrOCR ONNX Model Downloader''])
      | Inr w0 \<Rightarrow>
          (case backup_existing w0 of
             (Some e, w1, out1) \<Rightarrow> (Uncaught e, w1, Text ''TrOCR ONNX Model Downloader'' # out1)
           | (None, w1, out1) \<Rightarrow>
               (case try_block w1 of
                  (Some e, w2, out2) \<Rightarrow>
                    (Exit 1, w2,
                     Text ''TrOCR ONNX Model Downloader'' # out1 @ intro_lines @ out2
                       @ [Failed e] @ hint_lines)
                | (None, w2, out2) \<Rightarrow>
                    (Exit 0, w2,
                     Text ''TrOCR ONNX Model Downloader'' # out1 @ intro_lines @ out2
                       @ [Text ''Done! Now test with: cargo run --release --bin test_models'']))))"

subsection \<open>kitty\_test\_simple.py\<close>

text \<open>\<open>base64.b64encode\<close>, the standard alphabet of RFC 4648 with padding: three bytes
  make a 24-bit group, read as four 6-bit digits.\<close>

definition b64chars :: string where
  "b64chars = ''ABCDEFGHIJKLMNOPQRSTUVWXYZabcdefghijklmnopqrstuvwxyz0123456789+/''"

definition b64char :: "nat \<Rightarrow> char" where
  "b64char n = b64chars ! (n mod 64)"

definition group24 :: "byte \<Rightarrow> byte \<Rightarrow> byte \<Rightarrow> nat" where
  "group24 a b c = unat a * 65536 + unat b * 256 + unat c"

definition quad :: "nat \<Rightarrow> string" where
  "quad n = [b64char (n div 262144), b64char (n div 4096), b64char (n div 64), b64char n]"

fun b64encode :: "bytes \<Rightarrow> string" where
  "b64encode [] = []"
| "b64encode [a] = take 2 (quad (group24 a 0 0)) @ ''==''"
| "b64encode [a, b] = take 3 (quad (group24 a b 0)) @ ''=''"
| "b64encode (a # b # c # rest) = quad (group24 a b c) @ b64encode rest"

text \<open>The decoder the emission is read back with: strict RFC 4648, four characters at
  a time, padding only in the last group. It is the reader's side, not code of the script.\<close>

fun index_of :: "'a \<Rightarrow> 'a list \<Rightarrow> nat option" where
  "index_of x [] = None"
| "index_of x (y # ys) = (if x = y then Some 0 else map_option Suc (index_of x ys))"

definition b64index :: "char \<Rightarrow> nat option" where
  "b64index c = index_of c b64chars"

definition sextets :: "char \<Rightarrow> char \<Rightarrow> char \<Rightarrow> char \<Rightarrow> nat option" where
  "sextets c1 c2 c3 c4 =
     (case (b64index c1, b64index c2, b64index c3, b64index c4) of
        (Some i1, Some i2, Some i3, Some i4) \<Rightarrow> Some (i1 * 262144 + i2 * 4096 + i3 * 64 + i4)
      | _ \<Rightarrow> None)"

fun b64decode :: "string \<Rightarrow> bytes option" where
  "b64decode [] = Some []"
| "b64decode [c1, c2, c3, c4] =
     (if c3 = CHR ''='' \<and> c4 = CHR ''='' then
        map_option (\<lambda>n. [word_of_nat (n div 65536)]) (sextets c1 c2 (CHR ''A'') (CHR ''A''))
      else if c4 = CHR ''='' then
        map_option (\<lambda>n. [word_of_nat (n div 65536), word_of_nat (n div 256)])
          (sextets c1 c2 c3 (CHR ''A''))
      else
        map_option (\<lambda>n. [word_of_nat (n div 65536), word_of_nat (n div 256), word_of_nat n])
          (sextets c1 c2 c3 c4))"
| "b64decode (c1 # c2 # c3 # c4 # rest) =
     (case (sextets c1 c2 c3 c4, b64decode rest) of
        (Some n, Some bs) \<Rightarrow>
          Some ([word_of_nat (n div 65536), word_of_nat (n div 256), word_of_nat n] @ bs)
      | _ \<Rightarrow> None)"
| "b64decode _ = None"

definition ESC :: char where
  "ESC = CHR 0x1B"

definition control :: string where
  "control = [ESC, CHR ''_'', CHR ''G''] @ ''a=T,f=100;''"

definition terminator :: string where
  "terminator = [ESC, CHR 0x5C]"

text \<open>The string of line 18: \<open>f'\x1b_Ga=T,f=100;{encoded}\x1b\\'\<close>.\<close>

definition kitty_escape :: "bytes \<Rightarrow> string" where
  "kitty_escape img_data = control @ b64encode img_data @ terminator"

definition png :: path where
  "png = [''vello_render_test.png'']"

text \<open>Lines 11 to 19: read the image, encode it, write the sequence. The result is the
  exception that ended the operation, if any, and what reached standard output.\<close>

definition graphics_emitter :: "world \<Rightarrow> error option \<times> string" where
  "graphics_emitter w =
     (case read_file w png of
        Inl e \<Rightarrow> (Some e, [])
      | Inr img_data \<Rightarrow> (None, kitty_escape img_data))"

definition closing :: string where
  "closing =
     [CHR 0x0A, CHR 0x0A] @ ''PDF should be visible above in Kitty terminal'' @ [CHR 0x0A]
     @ ''The birth certificate has been rendered via Vello (GPU-accelerated)'' @ [CHR 0x0A]"

text \<open>The whole script: the renderer runs first, with its output captured, so nothing
  of it reaches the script's standard output.\<close>

definition kitty_test_simple :: "world \<Rightarrow> error option \<times> world \<times> string" where
  "kitty_test_simple w =
     (case spawn w [''./target/release/test_vello''] (fs w) of
        Inl e \<Rightarrow> (Some e, w, [])
      | Inr fs' \<Rightarrow>
          (case graphics_emitter (w\<lparr>fs := fs'\<rparr>) of
             (Some e, written) \<Rightarrow> (Some e, w\<lparr>fs := fs'\<rparr>, written)
           | (None, written) \<Rightarrow> (None, w\<lparr>fs := fs'\<rparr>, written @ closing)))"

subsection \<open>Marker checks of demo\_chonker8\_hot.py and test\_table\_pdf.py\<close>

text \<open>Python's \<open>pattern in text\<close> on strings.\<close>

fun str_in :: "string \<Rightarrow> string \<Rightarrow> bool" where
  "str_in pat [] = (pat = [])"
| "str_in pat (c # cs) = (prefix pat (c # cs) \<or> str_in pat cs)"

text \<open>\<open>text.split('\n')\<close>.\<close>

fun split_nl :: "string \<Rightarrow> string list" where
  "split_nl [] = [[]]"
| "split_nl (c # cs) =
     (if c = CHR 0x0A then [] # split_nl cs
      else (case split_nl cs of [] \<Rightarrow> [[c]] | l # ls \<Rightarrow> (c # l) # ls))"


definition vello_decoded :: "string \<Rightarrow> bool" where
  "vello_decoded stderr = str_in ''[VELLO] Successfully decoded image'' stderr"

text \<open>test\_table\_pdf.py, lines 25 to 35: what the loop body prints for one captured
  \<open>stderr\<close>. \<open>TablesDetected\<close> is the line \<open>Tables detected! Method: LayoutAnalysis\<close>,
  \<open>Line l\<close> the echo of a line of the text.\<close>

datatype report = TablesDetected | Line string

definition scan_stderr :: "string \<Rightarrow> report list" where
  "scan_stderr stderr =
     (if str_in ''LayoutAnalysis'' stderr \<or> str_in ''has_tables=true'' stderr then
        TablesDetected #
          map Line
            (filter (\<lambda>line. str_in ''has_tables'' line \<or> str_in ''LayoutAnalysis'' line
                            \<or> str_in ''LayoutLM'' line)
               (split_nl stderr))
      else
        (case filter (\<lambda>line. str_in ''has_tables='' line) (split_nl stderr) of
           [] \<Rightarrow> []
         | line # others \<Rightarrow> [Line line]))"


subsection \<open>Running the renderer from the drivers\<close>

text \<open>
  A child process as a black box: after how long it exits by itself, if ever; how long it
  takes to exit once SIGTERM reaches it, if it reacts at all; and what it has written to
  its two pipes by a given time. Times are milliseconds since the launch; a sleep and a
  timeout last their nominal length.
\<close>

record child =
  exits_after :: "nat option"
  dies_after_term :: "nat option"
  printed :: "nat \<Rightarrow> string \<times> string"

datatype launch = CannotLaunch error | Launched child

datatype liveness = Running | Gone

text \<open>What a runner gives back: the captured \<open>(stdout, stderr)\<close> and the time it took,
  or the exception it raised, the state it leaves the child in (none was started when
  the launch failed) and the time it took.\<close>

datatype run = Returned "string \<times> string" nat | Raised error "liveness option" nat




text \<open>test\_table\_pdf.py, lines 16 to 22: \<open>subprocess.run(..., timeout=5)\<close>. On a
  timeout \<open>run\<close> kills the child, waits for it and raises.\<close>

definition run_timeout :: "launch \<Rightarrow> run" where
  "run_timeout l =
     (case l of
        CannotLaunch e \<Rightarrow> Raised e None 0
      | Launched c \<Rightarrow>
          (case exits_after c of
             None \<Rightarrow> Raised TimeoutExpired (Some Gone) 5000
           | Some t \<Rightarrow>
               if t \<le> 5000 then Returned (printed c t) t
               else Raised TimeoutExpired (Some Gone) 5000))"

text \<open>How a driver ends: it runs to its last line, dies of an exception it does not
  catch, or waits for ever.\<close>

datatype script_end = Finished | Died error | Hangs






text \<open>The whole of test\_table\_pdf.py, for the program it starts on each PDF.\<close>

definition test_pdfs :: "string list" where
  "test_pdfs =
     [''/Users/jack/Desktop/BERF-CERT.pdf'',
      ''/Users/jack/Desktop/17.pdf'',
      ''/Users/jack/Desktop/Testing_the_waters_for_floating_class_7.5M___Philadelphia_Daily_News_PA___February_17_2025__pX10.pdf'']"

definition shown :: "report \<Rightarrow> msg" where
  "shown r =
     (case r of
        TablesDetected \<Rightarrow> Text ''  Tables detected! Method: LayoutAnalysis''
      | Line l \<Rightarrow> Text (''    '' @ l))"

fun test_loop :: "(string \<Rightarrow> launch) \<Rightarrow> string list \<Rightarrow> script_end \<times> msg list" where
  "test_loop chonker8_hot [] = (Finished, [])"
| "test_loop chonker8_hot (pdf # pdfs) =
     (case run_timeout (chonker8_hot pdf) of
        Raised e left t \<Rightarrow> (Died e, [Text (''Testing: '' @ pdf)])
      | Returned result t \<Rightarrow>
          (case test_loop chonker8_hot pdfs of
             (ending, lines) \<Rightarrow>
               (ending,
                Text (''Testing: '' @ pdf) # map shown (scan_stderr (snd result))
                  @ [Newline] @ lines)))"

definition test_table_pdf :: "(string \<Rightarrow> launch) \<Rightarrow> script_end \<times> msg list" where
  "test_table_pdf chonker8_hot =
     (case test_loop chonker8_hot test_pdfs of
        (ending, lines) \<Rightarrow> (ending, Text ''Looking for PDFs with tables...'' # lines))"




subsection \<open>Worlds to run the scripts in\<close>

text \<open>A world where nothing is refused, no server answers and a spawned program
  changes nothing.\<close>

definition quiet :: "filesystem \<Rightarrow> world" where
  "quiet m = \<lparr>fs = m, fault = (\<lambda>call. None), on_disk = (\<lambda>p n. n),
             net = (\<lambda>url. Inl ConnectionError), spawn = (\<lambda>cmd m'. Inr m')\<rparr>"

definition served :: "(string \<Rightarrow> error + response) \<Rightarrow> filesystem \<Rightarrow> world" where
  "served answers m = (quiet m)\<lparr>net := answers\<rparr>"

subsection \<open>What a download has to show for a response\<close>

text \<open>The chunks a body yields that the loop writes: the non-empty ones, up to the end
  of the body or the break of the connection.\<close>

fun received :: "stream \<Rightarrow> bytes list" where
  "received End = []"
| "received (Broken e) = []"
| "received (Chunk chunk rest) = (if chunk = [] then received rest else chunk # received rest)"

text \<open>The progress lines for chunks written one after the other, \<open>d\<close> bytes being
  written already.\<close>

fun progress_from :: "nat \<Rightarrow> int \<Rightarrow> bytes list \<Rightarrow> msg list" where
  "progress_from d total_size [] = []"
| "progress_from d total_size (chunk # chunks) =
     Progress (d + length chunk) total_size
       # progress_from (d + length chunk) total_size chunks"

text \<open>The exception a body ends with, if the connection breaks.\<close>

fun broke :: "stream \<Rightarrow> error option" where
  "broke End = None"
| "broke (Broken e) = Some e"
| "broke (Chunk chunk rest) = broke rest"

text \<open>Of the chunks handed to a file that holds \<open>n\<close> bytes so far: those whose write
  the system accepts, up to the first it refuses; and all the bytes passed to
  \<open>f.write\<close>, the refused chunk included.\<close>

fun accepted :: "world \<Rightarrow> path \<Rightarrow> nat \<Rightarrow> bytes list \<Rightarrow> bytes list" where
  "accepted w p n [] = []"
| "accepted w p n (chunk # chunks) =
     (if fault w (Write p n) \<noteq> None then []
      else chunk # accepted w p (n + length chunk) chunks)"

fun offered :: "world \<Rightarrow> path \<Rightarrow> nat \<Rightarrow> bytes list \<Rightarrow> bytes" where
  "offered w p n [] = []"
| "offered w p n (chunk # chunks) =
     chunk @ (if fault w (Write p n) \<noteq> None then []
              else offered w p (n + length chunk) chunks)"

text \<open>The system refuses one of the writes of these chunks, or the close after them.\<close>

definition io_refused :: "world \<Rightarrow> path \<Rightarrow> bytes list \<Rightarrow> bool" where
  "io_refused w p chunks \<longleftrightarrow>
     accepted w p 0 chunks \<noteq> chunks \<or> fault w (Close p (length (concat chunks))) \<noteq> None"

text \<open>What a download yields once the destination is open, given the response and the
  size the header gave: the chunks up to the first refused write are counted and
  printed, the file is closed, and the exception of the close, of the refused write or of
  the broken connection, in this order of precedence, is what the caller gets.\<close>

definition streamed ::
  "world \<Rightarrow> path \<Rightarrow> int \<Rightarrow> response \<Rightarrow> (error + path) \<times> world \<times> msg list" where
  "streamed w dest t resp =
     (let cs = received (body resp);
          A = accepted w dest 0 cs;
          H = offered w dest 0 cs;
          lines = (if 0 < t then progress_from 0 t A else []);
          w2 = w\<lparr>fs := (fs w)(dest \<mapsto>
                  File (if io_refused w dest cs then take (on_disk w dest (length H)) H else H))\<rparr>
      in case fault w (Close dest (length H)) of
           Some e \<Rightarrow> (Inl e, w2, lines)
         | None \<Rightarrow>
             (case (if A = cs then broke (body resp)
                    else fault w (Write dest (length (concat A)))) of
                Some e \<Rightarrow> (Inl e, w2, lines)
              | None \<Rightarrow> (Inr dest, w2, lines @ [Newline])))"

text \<open>Responses to run a download on: a body of 3 bytes under a header that announces
  10; two chunks with no length header; a connection that breaks after the first chunk; a
  body of 5 bytes in two chunks under a header that announces 5.\<close>

definition short_body :: response where
  "short_body = \<lparr>status_code = 200, content_length = HeaderInt 10, body = Chunk [1, 2, 3] End\<rparr>"

definition unsized_body :: response where
  "unsized_body =
     \<lparr>status_code = 200, content_length = NoHeader, body = Chunk [1, 2, 3] (Chunk [4, 5] End)\<rparr>"


definition sized_body :: response where
  "sized_body =
     \<lparr>status_code = 200, content_length = HeaderInt 5, body = Chunk [1, 2, 3] (Chunk [4, 5] End)\<rparr>"


definition full_disk :: world where
  "full_disk =
     (served (\<lambda>url. Inr sized_body) Map.empty)
       \<lparr>fault := (\<lambda>call. case call of Close p n \<Rightarrow> Some OSError | _ \<Rightarrow> None),
        on_disk := (\<lambda>p n. 0)\<rparr>"

section \<open>Base64\<close>

lemma index_of_nth: "distinct xs \<Longrightarrow> n < length xs \<Longrightarrow> index_of (xs ! n) xs = Some n"
proof (induction xs arbitrary: n)
  case Nil then show ?case by simp
next
  case (Cons y ys)
  show ?case
  proof (cases n)
    case 0 then show ?thesis by simp
  next
    case (Suc m)
    with Cons.prems have "ys ! m \<noteq> y" by auto
    with Suc Cons show ?thesis by simp
  qed
qed

lemma distinct_b64chars: "distinct b64chars"
  by (simp add: b64chars_def)

lemma length_b64chars: "length b64chars = 64"
  by (simp add: b64chars_def)

lemma b64index_b64char: "b64index (b64char n) = Some (n mod 64)"
  unfolding b64index_def b64char_def
  by (rule index_of_nth[OF distinct_b64chars]) (simp add: length_b64chars)

lemma b64char_in: "b64char n \<in> set b64chars"
  unfolding b64char_def by (rule nth_mem) (simp add: length_b64chars)

lemma pad_notin: "CHR ''='' \<notin> set b64chars"
  by (simp add: b64chars_def)

lemma b64char_not_pad: "b64char n \<noteq> CHR ''=''"
  using b64char_in[of n] pad_notin by metis


lemma b64index_A: "b64index (CHR ''A'') = Some 0"
  by (simp add: b64index_def b64chars_def)

lemma sextets_b64char:
  "sextets (b64char p) (b64char q) (b64char r) (b64char s) =
     Some ((p mod 64) * 262144 + (q mod 64) * 4096 + (r mod 64) * 64 + s mod 64)"
  by (simp add: sextets_def b64index_b64char)

lemma sextets_b64char3:
  "sextets (b64char p) (b64char q) (b64char r) (CHR ''A'') =
     Some ((p mod 64) * 262144 + (q mod 64) * 4096 + (r mod 64) * 64)"
  by (simp add: sextets_def b64index_b64char b64index_A)

lemma sextets_b64char2:
  "sextets (b64char p) (b64char q) (CHR ''A'') (CHR ''A'') =
     Some ((p mod 64) * 262144 + (q mod 64) * 4096)"
  by (simp add: sextets_def b64index_b64char b64index_A)


lemma byte_eq: "unat (a::byte) = m mod 256 \<Longrightarrow> (word_of_nat m :: byte) = a"
proof -
  assume h: "unat a = m mod 256"
  have "unat (word_of_nat m :: byte) = m mod 256"
    by (simp add: unat_of_nat)
  with h show ?thesis by (metis unsigned_word_eqI)
qed


lemma regroup:
  fixes n :: nat
  assumes "n < 16777216"
  shows "(n div 262144) mod 64 * 262144 + (n div 4096) mod 64 * 4096
           + (n div 64) mod 64 * 64 + n mod 64 = n"
proof -
  define q1 where "q1 = n div 64"
  define q2 where "q2 = q1 div 64"
  define q3 where "q3 = q2 div 64"
  have d2: "n div 4096 = q2"
    unfolding q2_def q1_def by (simp add: div_mult2_eq)
  have d3: "n div 262144 = q3"
    unfolding q3_def q2_def q1_def by (simp add: div_mult2_eq)
  have small: "q3 < 64"
    using assms unfolding d3[symmetric] by (simp add: less_mult_imp_div_less)
  have e1: "n = q1 * 64 + n mod 64"
    unfolding q1_def by simp
  have e2: "q1 = q2 * 64 + q1 mod 64"
    unfolding q2_def by simp
  have e3: "q2 = q3 * 64 + q2 mod 64"
    unfolding q3_def by simp
  have "q3 mod 64 * 262144 + q2 mod 64 * 4096 + q1 mod 64 * 64 + n mod 64 = n"
    using small e1 e2 e3 by simp
  then show ?thesis
    unfolding d2 d3 q1_def[symmetric] .
qed

lemma low12_zero:
  fixes a :: nat
  shows "(a * 65536) div 64 mod 64 = 0" and "(a * 65536) mod 64 = 0"
proof -
  have e: "a * 65536 = (a * 1024) * 64" by simp
  show "(a * 65536) div 64 mod 64 = 0"
    unfolding e by simp
  show "(a * 65536) mod 64 = 0"
    unfolding e by simp
qed

lemma low6_zero:
  fixes a b :: nat
  shows "(a * 65536 + b * 256) mod 64 = 0"
proof -
  have e: "a * 65536 + b * 256 = (a * 1024 + b * 4) * 64" by simp
  show ?thesis unfolding e by simp
qed

lemma div_mod_digit:
  fixes k m c :: nat
  assumes "c < m"
  shows "(k * m + c) div m = k" and "(k * m + c) mod m = c"
  using assms by simp_all

lemma split3:
  fixes a b c :: nat
  assumes "b < 256" "c < 256"
  shows "(a * 65536 + b * 256 + c) div 65536 = a"
    and "(a * 65536 + b * 256 + c) div 256 mod 256 = b"
    and "(a * 65536 + b * 256 + c) mod 256 = c"
proof -
  have e: "a * 65536 + b * 256 + c = (a * 256 + b) * 256 + c" by simp
  have d: "(a * 65536 + b * 256 + c) div 256 = a * 256 + b"
    by (simp only: e div_mod_digit(1)[OF assms(2)])
  show "(a * 65536 + b * 256 + c) div 256 mod 256 = b"
    by (simp only: d div_mod_digit(2)[OF assms(1)])
  show "(a * 65536 + b * 256 + c) mod 256 = c"
    by (simp only: e div_mod_digit(2)[OF assms(2)])
  have "(a * 65536 + b * 256 + c) div 65536 = (a * 65536 + b * 256 + c) div 256 div 256"
    by (simp add: div_mult2_eq)
  also have "\<dots> = a"
    by (simp only: d div_mod_digit(1)[OF assms(1)])
  finally show "(a * 65536 + b * 256 + c) div 65536 = a" .
qed


lemma group_bound: "group24 a b c < 16777216"
proof -
  have "unat a < 256" "unat b < 256" "unat c < 256"
    using unsigned_less[of a] unsigned_less[of b] unsigned_less[of c] by simp_all
  then show ?thesis by (simp add: group24_def)
qed

lemma group_bytes:
  "(word_of_nat (group24 a b c div 65536) :: byte) = a"
  "(word_of_nat (group24 a b c div 256) :: byte) = b"
  "(word_of_nat (group24 a b c) :: byte) = c"
proof -
  have ub: "unat b < 256" "unat c < 256"
    using unsigned_less[of b] unsigned_less[of c] by simp_all
  have ua: "unat a < 256"
    using unsigned_less[of a] by simp
  have "unat a = group24 a b c div 65536 mod 256"
    using split3(1)[OF ub, of "unat a"] ua by (simp add: group24_def)
  then show "(word_of_nat (group24 a b c div 65536) :: byte) = a"
    by (rule byte_eq)
  have "unat b = group24 a b c div 256 mod 256"
    using split3(2)[OF ub, of "unat a"] by (simp add: group24_def)
  then show "(word_of_nat (group24 a b c div 256) :: byte) = b"
    by (rule byte_eq)
  have "unat c = group24 a b c mod 256"
    using split3(3)[OF ub, of "unat a"] by (simp add: group24_def)
  then show "(word_of_nat (group24 a b c) :: byte) = c"
    by (rule byte_eq)
qed

lemma group_low:
  "group24 a b 0 mod 64 = 0" "group24 a 0 0 mod 64 = 0" "group24 a 0 0 div 64 mod 64 = 0"
  using low6_zero[of "unat a" "unat b"] low12_zero[of "unat a"]
  by (simp_all add: group24_def)

lemma sextets_group:
  assumes "n < 16777216"
  shows "sextets (b64char (n div 262144)) (b64char (n div 4096)) (b64char (n div 64)) (b64char n)
           = Some n"
  by (simp only: sextets_b64char regroup[OF assms])

lemma sextets_group3:
  assumes "n < 16777216" "n mod 64 = 0"
  shows "sextets (b64char (n div 262144)) (b64char (n div 4096)) (b64char (n div 64)) (CHR ''A'')
           = Some n"
proof -
  have "(n div 262144) mod 64 * 262144 + (n div 4096) mod 64 * 4096 + (n div 64) mod 64 * 64 = n"
    using regroup[OF assms(1)] by (simp only: assms(2) add_0_right)
  then show ?thesis by (simp only: sextets_b64char3)
qed

lemma sextets_group2:
  assumes "n < 16777216" "n mod 64 = 0" "n div 64 mod 64 = 0"
  shows "sextets (b64char (n div 262144)) (b64char (n div 4096)) (CHR ''A'') (CHR ''A'') = Some n"
proof -
  have "(n div 262144) mod 64 * 262144 + (n div 4096) mod 64 * 4096 = n"
    using regroup[OF assms(1)] by (simp only: assms(2,3) add_0_right mult_zero_left)
  then show ?thesis by (simp only: sextets_b64char2)
qed

lemma b64decode_block:
  assumes "c3 \<noteq> CHR ''=''" "c4 \<noteq> CHR ''=''"
  shows "b64decode (c1 # c2 # c3 # c4 # rest) =
     (case (sextets c1 c2 c3 c4, b64decode rest) of
        (Some n, Some bs) \<Rightarrow>
          Some ([word_of_nat (n div 65536), word_of_nat (n div 256), word_of_nat n] @ bs)
      | _ \<Rightarrow> None)"
  using assms by (cases rest) (simp_all split: option.splits)

lemma decode1: "b64decode (b64encode [a]) = Some [a]"
proof -
  define n where "n = group24 a 0 0"
  have s: "sextets (b64char (n div 262144)) (b64char (n div 4096)) (CHR ''A'') (CHR ''A'') = Some n"
    unfolding n_def by (rule sextets_group2[OF group_bound group_low(2) group_low(3)])
  have w: "(word_of_nat (n div 65536) :: byte) = a"
    unfolding n_def by (rule group_bytes)
  have "b64encode [a] = [b64char (n div 262144), b64char (n div 4096), CHR ''='', CHR ''='']"
    by (simp add: quad_def n_def)
  then show ?thesis
    using s w by simp
qed

lemma decode2: "b64decode (b64encode [a, b]) = Some [a, b]"
proof -
  define n where "n = group24 a b 0"
  have s: "sextets (b64char (n div 262144)) (b64char (n div 4096)) (b64char (n div 64)) (CHR ''A'')
            = Some n"
    unfolding n_def by (rule sextets_group3[OF group_bound group_low(1)])
  have w: "(word_of_nat (n div 65536) :: byte) = a" "(word_of_nat (n div 256) :: byte) = b"
    unfolding n_def by (rule group_bytes)+
  have "b64encode [a, b] =
      [b64char (n div 262144), b64char (n div 4096), b64char (n div 64), CHR ''='']"
    by (simp add: quad_def n_def)
  then show ?thesis
    using s w by (simp add: b64char_not_pad)
qed

lemma decode3:
  assumes "b64decode (b64encode rest) = Some rest"
  shows "b64decode (b64encode (a # b # c # rest)) = Some (a # b # c # rest)"
proof -
  define n where "n = group24 a b c"
  have s: "sextets (b64char (n div 262144)) (b64char (n div 4096)) (b64char (n div 64)) (b64char n)
            = Some n"
    unfolding n_def by (rule sextets_group[OF group_bound])
  have w: "(word_of_nat (n div 65536) :: byte) = a" "(word_of_nat (n div 256) :: byte) = b"
      "(word_of_nat n :: byte) = c"
    unfolding n_def by (rule group_bytes)+
  have e: "b64encode (a # b # c # rest) =
      b64char (n div 262144) # b64char (n div 4096) # b64char (n div 64) # b64char n
        # b64encode rest"
    by (simp add: quad_def n_def)
  show ?thesis
    unfolding e
    by (simp add: b64decode_block[OF b64char_not_pad b64char_not_pad] s assms w)
qed

lemma b64_roundtrip: "b64decode (b64encode bs) = Some bs"
proof (induction bs rule: b64encode.induct)
  case 1 show ?case by simp
next
  case (2 a) show ?case by (rule decode1)
next
  case (3 a b) show ?case by (rule decode2)
next
  case (4 a b c rest) then show ?case by (rule decode3)
qed

lemma length_b64encode: "length (b64encode bs) = 4 * ((length bs + 2) div 3)"
proof (induction bs rule: b64encode.induct)
  case (4 a b c rest)
  have "(length (a # b # c # rest) + 2) div 3 = Suc ((length rest + 2) div 3)"
    by simp
  with 4 show ?case by (simp add: quad_def)
qed (simp_all add: quad_def)

lemma set_quad: "set (quad n) \<subseteq> set b64chars"
  by (simp add: quad_def b64char_in)

lemma set_b64encode: "set (b64encode bs) \<subseteq> set b64chars \<union> {CHR ''=''}"
proof (induction bs rule: b64encode.induct)
  case (4 a b c rest)
  then show ?case using set_quad[of "group24 a b c"] by auto
qed (simp_all add: quad_def b64char_in)

section \<open>The Kitty graphics emission\<close>

lemma read_png:
  assumes "fs w png = Some (File img_data)" "fault w (OpenRead png) = None"
  shows "read_file w png = Inr img_data"
  using assms by (simp add: read_file_def look_def png_def parent_error_def)

text \<open>
  Claim C6. A readable image of 10 bytes is emitted as the two bytes ESC and underscore,
  then \<open>G\<close>, then the literal \<open>a=T,f=100;\<close>, then the base64 of the file, which is
  \<open>ceil(10/3) * 4 = 16\<close> characters of the standard alphabet and its padding sign and
  decodes to the file, then the two bytes ESC and backslash; nothing else is written.
\<close>

theorem graphics_emitter_ten_bytes:
  assumes "fs w png = Some (File img_data)"
    and "fault w (OpenRead png) = None"
    and "length img_data = 10"
  shows "graphics_emitter w =
           (None, [ESC, CHR ''_''] @ ''G'' @ ''a=T,f=100;'' @ b64encode img_data @ [ESC, CHR 0x5C])
         \<and> length (b64encode img_data) = 4 * ((10 + 2) div 3)
         \<and> length (b64encode img_data) = 16
         \<and> set (b64encode img_data) \<subseteq> set b64chars \<union> {CHR ''=''}
         \<and> b64decode (b64encode img_data) = Some img_data"
proof -
  have "graphics_emitter w = (None, kitty_escape img_data)"
    by (simp add: graphics_emitter_def read_png[OF assms(1,2)])
  moreover have "length (b64encode img_data) = 16"
    by (simp add: length_b64encode assms(3))
  moreover note set_b64encode[of img_data] b64_roundtrip[of img_data]
  ultimately show ?thesis
    by (simp add: kitty_escape_def control_def terminator_def)
qed

theorem graphics_emitter_ten_bytes_witness:
  "graphics_emitter (quiet [png \<mapsto> File [1, 2, 3, 4, 5, 6, 7, 8, 9, 10]]) =
     (None, [ESC, CHR ''_''] @ ''G'' @ ''a=T,f=100;''
            @ b64encode [1, 2, 3, 4, 5, 6, 7, 8, 9, 10] @ [ESC, CHR 0x5C])
   \<and> length (b64encode [1, 2, 3, 4, 5, 6, 7, 8, 9, 10]) = 4 * ((10 + 2) div 3)
   \<and> length (b64encode [1, 2, 3, 4, 5, 6, 7, 8, 9, 10]) = 16
   \<and> set (b64encode [1, 2, 3, 4, 5, 6, 7, 8, 9, 10]) \<subseteq> set b64chars \<union> {CHR ''=''}
   \<and> b64decode (b64encode [1, 2, 3, 4, 5, 6, 7, 8, 9, 10]) = Some [1, 2, 3, 4, 5, 6, 7, 8, 9, 10]"
proof -
  have h1: "fs (quiet [png \<mapsto> File [1, 2, 3, 4, 5, 6, 7, 8, 9, 10]]) png
              = Some (File [1, 2, 3, 4, 5, 6, 7, 8, 9, 10])"
    by (simp add: quiet_def)
  have h2: "fault (quiet [png \<mapsto> File [1, 2, 3, 4, 5, 6, 7, 8, 9, 10]]) (OpenRead png) = None"
    by (simp add: quiet_def)
  have h3: "length [1, 2, 3, 4, 5, 6, 7, 8, 9, 10 :: byte] = 10"
    by simp
  show ?thesis
    by (rule graphics_emitter_ten_bytes[OF h1 h2 h3])
qed

text \<open>
  Claim C7. When, after the renderer has run, the image is missing, is a directory or
  may not be opened, the emission ends with the exception and has written nothing, and the
  script as a whole dies with that exception with an empty standard output.
\<close>

theorem graphics_emitter_unreadable:
  assumes "spawn w [''./target/release/test_vello''] (fs w) = Inr m"
    and "(\<forall>b. m png \<noteq> Some (File b)) \<or> fault w (OpenRead png) \<noteq> None"
  shows "\<exists>e. graphics_emitter (w\<lparr>fs := m\<rparr>) = (Some e, [])
             \<and> kitty_test_simple w = (Some e, w\<lparr>fs := m\<rparr>, [])"
proof -
  have "\<exists>e. read_file (w\<lparr>fs := m\<rparr>) png = Inl e"
    using assms(2)
    by (auto simp: read_file_def look_def png_def parent_error_def
          split: option.splits node.splits)
  then obtain e where "read_file (w\<lparr>fs := m\<rparr>) png = Inl e" ..
  then have "graphics_emitter (w\<lparr>fs := m\<rparr>) = (Some e, [])"
    by (simp add: graphics_emitter_def)
  then show ?thesis
    using assms(1) by (simp add: kitty_test_simple_def)
qed

theorem graphics_emitter_unreadable_witness:
  "\<exists>e. graphics_emitter ((quiet Map.empty)\<lparr>fs := Map.empty\<rparr>) = (Some e, [])
       \<and> kitty_test_simple (quiet Map.empty) = (Some e, (quiet Map.empty)\<lparr>fs := Map.empty\<rparr>, [])"
proof -
  have h1: "spawn (quiet Map.empty) [''./target/release/test_vello''] (fs (quiet Map.empty))
              = Inr Map.empty"
    by (simp add: quiet_def)
  have h2: "(\<forall>b. (Map.empty :: filesystem) png \<noteq> Some (File b))
              \<or> fault (quiet Map.empty) (OpenRead png) \<noteq> None"
    by simp
  show ?thesis
    by (rule graphics_emitter_unreadable[OF h1 h2])
qed

text \<open>
  Claim C10. For every content \<open>b\<close> of a readable image file, what the emitter writes
  is the control section, one payload and the terminator; that payload is the only
  string that stands between this control section and this terminator in the output,
  and decoding it gives back exactly \<open>b\<close>.
\<close>

theorem graphics_emitter_roundtrip:
  assumes "fs w png = Some (File b)"
    and "fault w (OpenRead png) = None"
  shows "\<exists>payload. graphics_emitter w = (None, control @ payload @ terminator)
           \<and> b64decode payload = Some b
           \<and> (\<forall>p. snd (graphics_emitter w) = control @ p @ terminator \<longrightarrow> p = payload)"
proof -
  have "graphics_emitter w = (None, control @ b64encode b @ terminator)"
    by (simp add: graphics_emitter_def read_png[OF assms] kitty_escape_def)
  then show ?thesis
    using b64_roundtrip[of b] by (intro exI[of _ "b64encode b"]) simp
qed

theorem graphics_emitter_roundtrip_witness:
  "\<exists>payload. graphics_emitter (quiet [png \<mapsto> File [1, 2, 3]])
                = (None, control @ payload @ terminator)
     \<and> b64decode payload = Some [1, 2, 3]
     \<and> (\<forall>p. snd (graphics_emitter (quiet [png \<mapsto> File [1, 2, 3]]))
               = control @ p @ terminator \<longrightarrow> p = payload)"
proof -
  have h1: "fs (quiet [png \<mapsto> File [1, 2, 3]]) png = Some (File [1, 2, 3])"
    by (simp add: quiet_def)
  have h2: "fault (quiet [png \<mapsto> File [1, 2, 3]]) (OpenRead png) = None"
    by (simp add: quiet_def)
  show ?thesis
    by (rule graphics_emitter_roundtrip[OF h1 h2])
qed

section \<open>Marker rules\<close>

lemma str_in_sublist: "str_in pat captured = sublist pat captured"
  by (induction captured) (simp_all add: sublist_Cons_right)

lemma str_in_iff: "str_in pat captured \<longleftrightarrow> (\<exists>before after. captured = before @ pat @ after)"
  by (simp add: str_in_sublist sublist_def)

lemma split_nl_not_Nil: "split_nl captured \<noteq> []"
  by (induction captured) (simp_all split: list.splits)

lemma hd_split_nl:
  "hd (split_nl (c # cs)) = (if c = CHR 0x0A then [] else c # hd (split_nl cs))"
  using split_nl_not_Nil[of cs] by (cases "split_nl cs") simp_all

lemma prefix_first_line:
  "CHR 0x0A \<notin> set pat \<Longrightarrow> prefix pat captured \<longleftrightarrow> prefix pat (hd (split_nl captured))"
proof (induction captured arbitrary: pat)
  case Nil
  then show ?case by simp
next
  case (Cons c cs)
  show ?case
  proof (cases pat)
    case Nil
    then show ?thesis by simp
  next
    case (Cons d ds)
    with Cons.prems have nl: "d \<noteq> CHR 0x0A" "CHR 0x0A \<notin> set ds" by auto
    show ?thesis
      using Cons.IH[OF nl(2)] nl(1) by (auto simp: Cons hd_split_nl simp del: split_nl.simps)
  qed
qed

lemma str_in_lines:
  assumes "CHR 0x0A \<notin> set pat"
  shows "str_in pat captured \<longleftrightarrow> (\<exists>line \<in> set (split_nl captured). str_in pat line)"
proof (induction captured)
  case Nil
  show ?case by simp
next
  case (Cons c cs)
  obtain l ls where s: "split_nl cs = l # ls"
    using split_nl_not_Nil[of cs] by (cases "split_nl cs") auto
  show ?case
  proof (cases "c = CHR 0x0A")
    case True
    have "prefix pat (c # cs) \<longleftrightarrow> pat = []"
      using assms True by (cases pat) auto
    then show ?thesis
      using Cons True by auto
  next
    case False
    have "prefix pat (c # cs) \<longleftrightarrow> prefix pat (c # l)"
      using prefix_first_line[OF assms, of "c # cs"] False s
      by (simp add: hd_split_nl del: split_nl.simps)
    then show ?thesis
      using Cons False s by auto
  qed
qed

lemma detected_lines:
  "(str_in ''LayoutAnalysis'' captured \<or> str_in ''has_tables=true'' captured) \<longleftrightarrow>
     (\<exists>line \<in> set (split_nl captured).
        str_in ''LayoutAnalysis'' line \<or> str_in ''has_tables=true'' line)"
proof -
  have "str_in ''LayoutAnalysis'' captured \<longleftrightarrow>
          (\<exists>line \<in> set (split_nl captured). str_in ''LayoutAnalysis'' line)"
    by (rule str_in_lines) simp
  moreover have "str_in ''has_tables=true'' captured \<longleftrightarrow>
          (\<exists>line \<in> set (split_nl captured). str_in ''has_tables=true'' line)"
    by (rule str_in_lines) simp
  ultimately show ?thesis by blast
qed

lemma first_match:
  "(case xs of [] \<Rightarrow> [] | line # others \<Rightarrow> [Line line]) = map Line (take 1 xs)"
  by (cases xs) simp_all

text \<open>
  Claim C5, as the scripts have it. A containment test is an exact, case-sensitive
  substring test, and for a pattern without a newline, as all patterns of the scripts are,
  it holds exactly when the pattern occurs within one line of the text. The rules of the
  table scan are not evaluated independently: the line rules \<open>has_tables\<close>,
  \<open>LayoutAnalysis\<close> and \<open>LayoutLM\<close> are applied, to every line, only when
  \<open>LayoutAnalysis\<close> or \<open>has_tables=true\<close> occurs in some line; otherwise only the rule
  \<open>has_tables=\<close> is applied, and only its first matching line is echoed.
\<close>

theorem marker_rules:
  assumes "CHR 0x0A \<notin> set pat"
  shows "(str_in pat captured \<longleftrightarrow> (\<exists>before after. captured = before @ pat @ after))
       \<and> (str_in pat captured \<longleftrightarrow> (\<exists>line \<in> set (split_nl captured). str_in pat line))
       \<and> (vello_decoded captured \<longleftrightarrow>
            (\<exists>line \<in> set (split_nl captured). str_in ''[VELLO] Successfully decoded image'' line))
       \<and> scan_stderr captured =
           (if \<exists>line \<in> set (split_nl captured).
                 str_in ''LayoutAnalysis'' line \<or> str_in ''has_tables=true'' line
            then TablesDetected #
                   map Line
                     (filter (\<lambda>line. str_in ''has_tables'' line \<or> str_in ''LayoutAnalysis'' line
                                     \<or> str_in ''LayoutLM'' line)
                        (split_nl captured))
            else map Line (take 1 (filter (\<lambda>line. str_in ''has_tables='' line) (split_nl captured))))"
proof -
  have "vello_decoded captured \<longleftrightarrow>
          (\<exists>line \<in> set (split_nl captured). str_in ''[VELLO] Successfully decoded image'' line)"
    unfolding vello_decoded_def by (rule str_in_lines) simp
  moreover have "scan_stderr captured =
           (if \<exists>line \<in> set (split_nl captured).
                 str_in ''LayoutAnalysis'' line \<or> str_in ''has_tables=true'' line
            then TablesDetected #
                   map Line
                     (filter (\<lambda>line. str_in ''has_tables'' line \<or> str_in ''LayoutAnalysis'' line
                                     \<or> str_in ''LayoutLM'' line)
                        (split_nl captured))
            else map Line (take 1 (filter (\<lambda>line. str_in ''has_tables='' line) (split_nl captured))))"
    unfolding scan_stderr_def first_match detected_lines[of captured] by (rule refl)
  ultimately show ?thesis
    using str_in_iff[of pat captured] str_in_lines[OF assms, of captured] by blast
qed

theorem marker_rules_witness:
  "(str_in ''has_tables='' ''has_tables=false'' \<longleftrightarrow>
      (\<exists>before after. ''has_tables=false'' = before @ ''has_tables='' @ after))
   \<and> (str_in ''has_tables='' ''has_tables=false'' \<longleftrightarrow>
        (\<exists>line \<in> set (split_nl ''has_tables=false''). str_in ''has_tables='' line))
   \<and> (vello_decoded ''has_tables=false'' \<longleftrightarrow>
        (\<exists>line \<in> set (split_nl ''has_tables=false'').
           str_in ''[VELLO] Successfully decoded image'' line))
   \<and> scan_stderr ''has_tables=false'' =
       (if \<exists>line \<in> set (split_nl ''has_tables=false'').
             str_in ''LayoutAnalysis'' line \<or> str_in ''has_tables=true'' line
        then TablesDetected #
               map Line
                 (filter (\<lambda>line. str_in ''has_tables'' line \<or> str_in ''LayoutAnalysis'' line
                                 \<or> str_in ''LayoutLM'' line)
                    (split_nl ''has_tables=false''))
        else map Line
               (take 1 (filter (\<lambda>line. str_in ''has_tables='' line) (split_nl ''has_tables=false''))))"
proof -
  have h: "CHR 0x0A \<notin> set ''has_tables=''"
    by simp
  show ?thesis
    by (rule marker_rules[OF h])
qed

text \<open>
  Against claim C5 as stated: the pattern \<open>LayoutLM\<close> occurs in the one line of the first
  text and nothing is reported for it, because neither \<open>LayoutAnalysis\<close> nor
  \<open>has_tables=true\<close> matched; in the second text the same line is echoed, because
  \<open>LayoutAnalysis\<close> matched on another line.
\<close>

theorem marker_rules_dependent:
  "str_in ''LayoutLM'' ''LayoutLM''
   \<and> split_nl ''LayoutLM'' = [''LayoutLM'']
   \<and> scan_stderr ''LayoutLM'' = []
   \<and> scan_stderr (''LayoutAnalysis'' @ [CHR 0x0A] @ ''LayoutLM'')
       = [TablesDetected, Line ''LayoutAnalysis'', Line ''LayoutLM'']"
  by (simp add: scan_stderr_def)

section \<open>The downloader\<close>

lemma accepted_all:
  "accepted w p n chunks = chunks \<Longrightarrow> offered w p n chunks = concat chunks"
  by (induction chunks arbitrary: n) (auto split: if_splits)

lemma accepted_short:
  "accepted w p n chunks \<noteq> chunks
     \<Longrightarrow> fault w (Write p (n + length (concat (accepted w p n chunks)))) \<noteq> None"
proof (induction chunks arbitrary: n)
  case Nil
  then show ?case by simp
next
  case (Cons c cs)
  show ?case
  proof (cases "fault w (Write p n)")
    case None
    with Cons.prems have "accepted w p (n + length c) cs \<noteq> cs" by simp
    from Cons.IH[OF this] None show ?thesis by (simp add: add.assoc)
  next
    case (Some e)
    then show ?thesis by simp
  qed
qed

lemma accepted_no_fault:
  "(\<forall>k. fault w (Write p k) = None) \<Longrightarrow> accepted w p n chunks = chunks"
  by (induction chunks arbitrary: n) simp_all


lemma accepted_prefix: "prefix (accepted w p n chunks) chunks"
  by (induction chunks arbitrary: n) simp_all

lemma write_chunks_result:
  "write_chunks dest t s w handed d out =
     (if accepted w dest (length handed) (received s) = received s then broke s
      else fault w (Write dest
             (length handed + length (concat (accepted w dest (length handed) (received s))))),
      accepted w dest (length handed) (received s) \<noteq> received s,
      handed @ offered w dest (length handed) (received s),
      d + length (concat (accepted w dest (length handed) (received s))),
      out @ (if 0 < t
             then progress_from d t (accepted w dest (length handed) (received s))
             else []))"
proof (induction s arbitrary: handed d out)
  case End
  show ?case by simp
next
  case (Broken e)
  show ?case by simp
next
  case (Chunk c rest)
  show ?case
  proof (cases "c = []")
    case True
    then show ?thesis by (simp add: Chunk.IH)
  next
    case False
    show ?thesis
    proof (cases "fault w (Write dest (length handed))")
      case (Some e)
      with False show ?thesis by simp
    next
      case None
      with False show ?thesis
        by (simp add: Chunk.IH add.assoc)
    qed
  qed
qed

lemma open_wb_result:
  assumes "open_wb w dest = Inr w1"
  shows "w1 = w\<lparr>fs := (fs w)(dest \<mapsto> File [])\<rparr> \<and> dest \<noteq> []"
  using assms
  by (auto simp: open_wb_def create_def look_def split: option.splits node.splits if_splits)

lemma accepted_fs: "accepted (w\<lparr>fs := m\<rparr>) p n cs = accepted w p n cs"
  by (induction cs arbitrary: n) simp_all

lemma offered_fs: "offered (w\<lparr>fs := m\<rparr>) p n cs = offered w p n cs"
  by (induction cs arbitrary: n) simp_all

lemma stream_and_close:
  "(case write_chunks dest t (body resp) (w\<lparr>fs := (fs w)(dest \<mapsto> File [])\<rparr>) [] 0 [] of
      (raised, write_refused, handed, downloaded, out) \<Rightarrow>
        (case close_file (w\<lparr>fs := (fs w)(dest \<mapsto> File [])\<rparr>) dest handed write_refused of
           (Some e, w2) \<Rightarrow> (Inl e, w2, out)
         | (None, w2) \<Rightarrow>
             (case raised of
                Some e \<Rightarrow> (Inl e, w2, out)
              | None \<Rightarrow> (Inr dest, w2, out @ [Newline]))))
   = streamed w dest t resp"
proof (cases "accepted w dest 0 (received (body resp)) = received (body resp)")
  case True
  then have H: "offered w dest 0 (received (body resp)) = concat (received (body resp))"
    by (rule accepted_all)
  show ?thesis
    using True H
    by (simp add: write_chunks_result accepted_fs offered_fs close_file_def streamed_def
          io_refused_def Let_def split: option.splits)
next
  case False
  then show ?thesis
    by (simp add: write_chunks_result accepted_fs offered_fs close_file_def streamed_def
          io_refused_def Let_def split: option.splits)
qed

lemma download_file_opened:
  assumes "net w url = Inr resp" "raise_for_status resp = None"
    and "total_size_of (content_length resp) = Inr t" "open_wb w dest = Inr w1"
  shows "download_file w url dest = streamed w dest t resp"
proof -
  have w1: "w1 = w\<lparr>fs := (fs w)(dest \<mapsto> File [])\<rparr>"
    using open_wb_result[OF assms(4)] by simp
  show ?thesis
    unfolding download_file_def using assms(1-3) assms(4)[unfolded w1]
    by (simp add: stream_and_close)
qed

lemma download_file_early:
  "net w url = Inl e \<Longrightarrow> download_file w url dest = (Inl e, w, [])"
  "net w url = Inr resp \<Longrightarrow> raise_for_status resp = Some e
     \<Longrightarrow> download_file w url dest = (Inl e, w, [])"
  "net w url = Inr resp \<Longrightarrow> raise_for_status resp = None
     \<Longrightarrow> total_size_of (content_length resp) = Inl e
     \<Longrightarrow> download_file w url dest = (Inl e, w, [])"
  "net w url = Inr resp \<Longrightarrow> raise_for_status resp = None
     \<Longrightarrow> total_size_of (content_length resp) = Inr t \<Longrightarrow> open_wb w dest = Inl e
     \<Longrightarrow> download_file w url dest = (Inl e, w, [])"
  by (simp_all add: download_file_def)

lemma download_file_cases:
  obtains (early) e where "download_file w url dest = (Inl e, w, [])"
      "net w url = Inl e
       \<or> (\<exists>resp. net w url = Inr resp
             \<and> (raise_for_status resp = Some e
                \<or> raise_for_status resp = None
                   \<and> (total_size_of (content_length resp) = Inl e
                      \<or> (\<exists>t. total_size_of (content_length resp) = Inr t)
                         \<and> open_wb w dest = Inl e)))"
    | (opened) resp t w1 where "net w url = Inr resp" "raise_for_status resp = None"
      "total_size_of (content_length resp) = Inr t" "open_wb w dest = Inr w1"
      "download_file w url dest = streamed w dest t resp"
proof (cases "net w url")
  case (Inl e)
  then show ?thesis using early download_file_early(1) by blast
next
  case (Inr resp)
  note net = this
  show ?thesis
  proof (cases "raise_for_status resp")
    case (Some e)
    then show ?thesis using early download_file_early(2)[OF net] net by blast
  next
    case None
    note ok = this
    show ?thesis
    proof (cases "total_size_of (content_length resp)")
      case (Inl e)
      then show ?thesis using early download_file_early(3)[OF net ok] net ok by blast
    next
      case (Inr t)
      note tot = this
      show ?thesis
      proof (cases "open_wb w dest")
        case (Inl e)
        then show ?thesis
          using early[of e] download_file_early(4)[OF net ok tot] net ok tot by blast
      next
        case (Inr w1)
        then show ?thesis
          using opened[OF net ok tot] download_file_opened[OF net ok tot] by blast
      qed
    qed
  qed
qed

lemma streamed_world:
  "fst (snd (streamed w dest t resp)) =
     w\<lparr>fs := (fs w)(dest \<mapsto>
          File (if io_refused w dest (received (body resp))
                then take (on_disk w dest (length (offered w dest 0 (received (body resp)))))
                       (offered w dest 0 (received (body resp)))
                else offered w dest 0 (received (body resp))))\<rparr>"
  by (simp add: streamed_def Let_def split: option.splits)

lemma streamed_success:
  assumes "streamed w dest t resp = (Inr d, w', out)"
  shows "d = dest" "w' = w\<lparr>fs := (fs w)(dest \<mapsto> File (concat (received (body resp))))\<rparr>"
    "accepted w dest 0 (received (body resp)) = received (body resp)"
    "\<not> io_refused w dest (received (body resp))"
proof -
  let ?cs = "received (body resp)"
  have A: "accepted w dest 0 ?cs = ?cs"
  proof (rule ccontr)
    assume "accepted w dest 0 ?cs \<noteq> ?cs"
    from accepted_short[OF this] this assms show False
      by (auto simp: streamed_def Let_def split: option.splits)
  qed
  then have H: "offered w dest 0 ?cs = concat ?cs" by (rule accepted_all)
  show "accepted w dest 0 ?cs = ?cs" by (rule A)
  have c: "fault w (Close dest (length (concat ?cs))) = None"
    using assms A H by (auto simp: streamed_def Let_def split: option.splits)
  then show "\<not> io_refused w dest ?cs"
    using A by (simp add: io_refused_def)
  then show "w' = w\<lparr>fs := (fs w)(dest \<mapsto> File (concat ?cs))\<rparr>"
    using assms A H by (auto simp: streamed_def Let_def split: option.splits)
  show "d = dest"
    using assms by (auto simp: streamed_def Let_def split: option.splits)
qed

lemma enter_elsewhere:
  "\<not> prefix p (here @ cs) \<Longrightarrow> enter (m(p \<mapsto> n)) here cs = enter m here cs"
proof (induction cs arbitrary: here)
  case Nil
  show ?case by simp
next
  case (Cons c cs)
  have "prefix (here @ [c]) (here @ c # cs)" by simp
  with Cons.prems have "p \<noteq> here @ [c]" by blast
  moreover have "\<not> prefix p ((here @ [c]) @ cs)"
    using Cons.prems by simp
  ultimately show ?case
    using Cons.IH[of "here @ [c]"] by (simp split: option.splits node.splits)
qed

lemma parent_error_written:
  assumes "p \<noteq> []"
  shows "parent_error (w\<lparr>fs := (fs w)(p \<mapsto> n)\<rparr>) p = parent_error w p"
proof -
  have "length (butlast p) < length p"
    using assms by simp
  then have "\<not> prefix p ([] @ butlast p)"
    using prefix_length_le[of p "butlast p"] by auto
  then show ?thesis
    by (simp add: parent_error_def enter_elsewhere del: append_Nil)
qed

lemma open_wb_parent:
  assumes "open_wb w dest = Inr w1"
  shows "parent_error w dest = None"
  using assms by (auto simp: open_wb_def split: option.splits)

text \<open>
  Claim C2, as the code has it. A download that returns has written to the destination
  exactly the non-empty chunks the body yielded, so the size of the file is the number of
  bytes received: it is the announced \<open>S\<close> when the body delivered \<open>S\<close> bytes, and the
  function never compares the two.
\<close>

theorem download_success_size:
  assumes "download_file w url destination = (Inr d, w', out)"
  shows "\<exists>response. net w url = Inr response
           \<and> d = destination
           \<and> fs w' destination = Some (File (concat (received (body response))))
           \<and> stat_size w' destination = Inr (length (concat (received (body response))))"
proof (cases rule: download_file_cases[of w url destination])
  case (early e)
  with assms show ?thesis by simp
next
  case (opened resp t w1)
  from opened(5) assms have s: "streamed w destination t resp = (Inr d, w', out)" by simp
  note r = streamed_success[OF s]
  have ne: "destination \<noteq> []"
    using open_wb_result[OF opened(4)] by simp
  have pe: "parent_error w' destination = None"
    unfolding r(2) parent_error_written[OF ne] by (rule open_wb_parent[OF opened(4)])
  show ?thesis
    using opened(1) r ne pe by (auto simp: stat_size_def look_def)
qed

lemmas run_defs =
  download_file_def served_def quiet_def raise_for_status_def total_size_of_def
  open_wb_def look_def create_def stat_size_def close_file_def parent_error_def

theorem download_success_size_witness:
  "\<exists>response. net (served (\<lambda>url. Inr sized_body) Map.empty) onnx_url = Inr response
     \<and> [''trocr.onnx''] = [''trocr.onnx'']
     \<and> fs ((served (\<lambda>url. Inr sized_body) Map.empty)
             \<lparr>fs := [[''trocr.onnx''] \<mapsto> File [1, 2, 3, 4, 5]]\<rparr>) [''trocr.onnx'']
         = Some (File (concat (received (body response))))
     \<and> stat_size ((served (\<lambda>url. Inr sized_body) Map.empty)
             \<lparr>fs := [[''trocr.onnx''] \<mapsto> File [1, 2, 3, 4, 5]]\<rparr>) [''trocr.onnx'']
         = Inr (length (concat (received (body response))))"
proof -
  have h: "download_file (served (\<lambda>url. Inr sized_body) Map.empty) onnx_url [''trocr.onnx''] =
      (Inr [''trocr.onnx''],
       (served (\<lambda>url. Inr sized_body) Map.empty)
         \<lparr>fs := [[''trocr.onnx''] \<mapsto> File [1, 2, 3, 4, 5]]\<rparr>,
       [Progress 3 5, Progress 5 5, Newline])"
    by (simp add: run_defs sized_body_def)
  show ?thesis
    by (rule download_success_size[OF h])
qed

text \<open>
  Against claim C2 as stated: the header announces 10 bytes, the body ends after 3, the
  download returns normally and the file has 3 bytes.
\<close>

theorem download_short_body:
  "content_length short_body = HeaderInt 10
   \<and> download_file (served (\<lambda>url. Inr short_body) Map.empty) onnx_url [''trocr.onnx''] =
       (Inr [''trocr.onnx''],
        (served (\<lambda>url. Inr short_body) Map.empty)\<lparr>fs := [[''trocr.onnx''] \<mapsto> File [1, 2, 3]]\<rparr>,
        [Progress 3 10, Newline])
   \<and> stat_size
        ((served (\<lambda>url. Inr short_body) Map.empty)\<lparr>fs := [[''trocr.onnx''] \<mapsto> File [1, 2, 3]]\<rparr>)
        [''trocr.onnx''] = Inr 3"
  by (simp add: run_defs short_body_def)



text \<open>On a full device both writes return, both progress lines are printed, and the
  error comes from the close.\<close>

lemma download_full_disk:
  "download_file full_disk onnx_url [''trocr.onnx''] =
     (Inl OSError, full_disk\<lparr>fs := [[''trocr.onnx''] \<mapsto> File []]\<rparr>,
      [Progress 3 5, Progress 5 5])"
  by (simp add: run_defs full_disk_def sized_body_def)


text \<open>
  Claim C4, as the code has it. The output of a download is fixed by the response and by
  the writes the system accepts. With a length header of positive value \<open>S\<close>, one
  progress line is printed for each non-empty chunk whose write returned, in order, with
  the running count of bytes and \<open>S\<close>, also when the download fails later; these chunks
  are all the chunks received when no write is refused, and they are what the file holds
  when nothing is refused. With no header, or a value that is not positive, nothing is
  printed while the bytes arrive. A download that returns normally ends its output with a
  newline; one that fails before the destination is open prints nothing.
\<close>

theorem download_progress:
  assumes "download_file w url destination = (r, w', out)"
    and "net w url = Inr response"
    and "total_size_of (content_length response) = Inr total_size"
  shows "out = (if raise_for_status response \<noteq> None \<or> (\<exists>e. open_wb w destination = Inl e)
                then []
                else (if 0 < total_size
                      then progress_from 0 total_size
                             (accepted w destination 0 (received (body response)))
                      else [])
                     @ (case r of Inl e \<Rightarrow> [] | Inr d \<Rightarrow> [Newline]))
       \<and> prefix (accepted w destination 0 (received (body response))) (received (body response))
       \<and> ((\<forall>n. fault w (Write destination n) = None)
            \<longrightarrow> accepted w destination 0 (received (body response)) = received (body response))
       \<and> (raise_for_status response = None \<and> (\<exists>w1. open_wb w destination = Inr w1)
            \<and> \<not> io_refused w destination (received (body response))
            \<longrightarrow> fs w' destination
                  = Some (File (concat (accepted w destination 0 (received (body response))))))"
proof -
  have first: "out = (if raise_for_status response \<noteq> None \<or> (\<exists>e. open_wb w destination = Inl e)
                then []
                else (if 0 < total_size
                      then progress_from 0 total_size
                             (accepted w destination 0 (received (body response)))
                      else [])
                     @ (case r of Inl e \<Rightarrow> [] | Inr d \<Rightarrow> [Newline]))"
  proof (cases rule: download_file_cases[of w url destination])
    case (early e)
    with assms show ?thesis by auto
  next
    case (opened resp t w1)
    with assms have "streamed w destination total_size response = (r, w', out)" by simp
    then show ?thesis
      using opened(1-4) assms(2,3)
      by (auto simp: streamed_def Let_def split: option.splits if_splits)
  qed
  have last: "fs w' destination
      = Some (File (concat (accepted w destination 0 (received (body response)))))"
    if "raise_for_status response = None" "open_wb w destination = Inr w1"
      "\<not> io_refused w destination (received (body response))" for w1
  proof -
    have "download_file w url destination = streamed w destination total_size response"
      by (rule download_file_opened[OF assms(2) that(1) assms(3) that(2)])
    with assms(1) have "w' = fst (snd (streamed w destination total_size response))" by simp
    moreover have "accepted w destination 0 (received (body response)) = received (body response)"
      using that(3) by (simp add: io_refused_def)
    ultimately show ?thesis
      using that(3) by (simp add: streamed_world accepted_all)
  qed
  show ?thesis
    using first last accepted_prefix[of w destination 0] accepted_no_fault[of w destination 0]
    by blast
qed

theorem download_progress_witness:
  "[Progress 3 5, Progress 5 5, Newline] =
     (if raise_for_status sized_body \<noteq> None
         \<or> (\<exists>e. open_wb (served (\<lambda>url. Inr sized_body) Map.empty) [''trocr.onnx''] = Inl e)
      then []
      else (if 0 < (5::int)
            then progress_from 0 5
                   (accepted (served (\<lambda>url. Inr sized_body) Map.empty) [''trocr.onnx''] 0
                      (received (body sized_body)))
            else [])
           @ (case (Inr [''trocr.onnx''] :: error + path) of Inl e \<Rightarrow> [] | Inr d \<Rightarrow> [Newline]))"
proof -
  have h1: "download_file (served (\<lambda>url. Inr sized_body) Map.empty) onnx_url [''trocr.onnx''] =
      (Inr [''trocr.onnx''],
       (served (\<lambda>url. Inr sized_body) Map.empty)
         \<lparr>fs := [[''trocr.onnx''] \<mapsto> File [1, 2, 3, 4, 5]]\<rparr>,
       [Progress 3 5, Progress 5 5, Newline])"
    by (simp add: run_defs sized_body_def)
  have h2: "net (served (\<lambda>url. Inr sized_body) Map.empty) onnx_url = Inr sized_body"
    by (simp add: served_def)
  have h3: "total_size_of (content_length sized_body) = Inr 5"
    by (simp add: total_size_of_def sized_body_def)
  show ?thesis
    by (rule conjunct1[OF download_progress[OF h1 h2 h3]])
qed

text \<open>
  Against claim C4 as stated: with no length header, two chunks arrive and are written,
  and the only output of the download is the newline after the loop; no progress,
  indeterminate or other, is reported.
\<close>

theorem download_unsized_silent:
  "content_length unsized_body = NoHeader
   \<and> download_file (served (\<lambda>url. Inr unsized_body) Map.empty) onnx_url [''trocr.onnx''] =
       (Inr [''trocr.onnx''],
        (served (\<lambda>url. Inr unsized_body) Map.empty)
          \<lparr>fs := [[''trocr.onnx''] \<mapsto> File [1, 2, 3, 4, 5]]\<rparr>,
        [Newline])"
  by (simp add: run_defs unsized_body_def)

section \<open>The script \<open>main\<close> of the downloader\<close>

lemma download_file_world:
  assumes "download_file w url dest = (r, w', out)"
  shows "w' = w \<or> (\<exists>b. w' = w\<lparr>fs := (fs w)(dest \<mapsto> File b)\<rparr>)"
proof (cases rule: download_file_cases[of w url dest])
  case (early e)
  with assms show ?thesis by simp
next
  case (opened resp t w1)
  with assms have "w' = fst (snd (streamed w dest t resp))" by simp
  then show ?thesis unfolding streamed_world by blast
qed

lemma download_file_elsewhere:
  assumes "download_file w url dest = (r, w', out)" "p \<noteq> dest"
  shows "fs w' p = fs w p"
  using download_file_world[OF assms(1)] assms(2) by auto

lemma download_file_stat:
  assumes "download_file w url dest = (Inr d, w', out)"
  shows "\<exists>sz. stat_size w' dest = Inr sz"
proof (cases rule: download_file_cases[of w url dest])
  case (early e)
  with assms show ?thesis by simp
next
  case (opened resp t w1)
  from opened(5) assms have s: "streamed w dest t resp = (Inr d, w', out)" by simp
  have ne: "dest \<noteq> []"
    using open_wb_result[OF opened(4)] by simp
  have "parent_error w' dest = None"
    unfolding streamed_success(2)[OF s] parent_error_written[OF ne]
    by (rule open_wb_parent[OF opened(4)])
  then show ?thesis
    using streamed_success(2)[OF s] ne by (simp add: stat_size_def look_def)
qed

lemma try_block_world:
  "fs (fst (snd (try_block w))) backup_path = fs w backup_path"
proof -
  obtain r1 w1 o1 where d1: "download_file w onnx_url dest_path = (r1, w1, o1)"
    by (metis prod_cases3)
  have f1: "fs w1 backup_path = fs w backup_path"
    by (rule download_file_elsewhere[OF d1]) (simp add: backup_path_def dest_path_def)
  show ?thesis
  proof (cases r1)
    case (Inl e)
    with d1 f1 show ?thesis by (simp add: try_block_def)
  next
    case (Inr d)
    with download_file_stat d1 obtain sz where sz: "stat_size w1 dest_path = Inr sz" by blast
    obtain r2 w2 o2 where d2: "download_file w1 encoder_url encoder_path = (r2, w2, o2)"
      by (metis prod_cases3)
    have f2: "fs w2 backup_path = fs w1 backup_path"
      by (rule download_file_elsewhere[OF d2]) (simp add: backup_path_def encoder_path_def)
    show ?thesis
      using d1 Inr sz d2 f1 f2 by (cases r2) (simp_all add: try_block_def)
  qed
qed

lemma try_block_result:
  "fst (try_block w) = None \<longleftrightarrow>
     (\<exists>d wa oa d2 wb ob.
        download_file w onnx_url dest_path = (Inr d, wa, oa)
        \<and> download_file wa encoder_url encoder_path = (Inr d2, wb, ob))"
proof -
  obtain r1 w1 o1 where d1: "download_file w onnx_url dest_path = (r1, w1, o1)"
    by (metis prod_cases3)
  show ?thesis
  proof (cases r1)
    case (Inl e)
    with d1 show ?thesis by (simp add: try_block_def)
  next
    case (Inr d)
    with download_file_stat d1 obtain sz where sz: "stat_size w1 dest_path = Inr sz" by blast
    obtain r2 w2 o2 where d2: "download_file w1 encoder_url encoder_path = (r2, w2, o2)"
      by (metis prod_cases3)
    show ?thesis
      using d1 Inr sz d2 by (cases r2) (simp_all add: try_block_def)
  qed
qed

lemma main_after_prelude:
  assumes "mkdir_exist_ok w models_dir = Inr w0" "backup_existing w0 = (None, w1, out1)"
  shows "fst (main w) = (if fst (try_block w1) = None then Exit 0 else Exit 1)"
    and "fst (snd (main w)) = fst (snd (try_block w1))"
proof -
  obtain r w2 out2 where t: "try_block w1 = (r, w2, out2)"
    by (metis prod_cases3)
  show "fst (main w) = (if fst (try_block w1) = None then Exit 0 else Exit 1)"
    using assms t by (cases r) (simp_all add: main_def)
  show "fst (snd (main w)) = fst (snd (try_block w1))"
    using assms t by (cases r) (simp_all add: main_def)
qed

lemmas main_defs =
  main_def backup_existing_def exists_def try_block_def mkdir_exist_ok_def os_rename_def
  renamed_def models_dir_def existing_model_def backup_path_def dest_path_def encoder_path_def
  move_def

text \<open>
  Claim C8. Once the directory is there and the backup step has not raised, \<open>main\<close>
  returns 0 when both downloads return normally, and 1 in every other case, that is
  when one of the two calls of \<open>download_file\<close> raised inside the \<open>try\<close>; the process
  exits with that value.
\<close>

text \<open>
  Claim C8. Once the directory is there and the backup step has not raised, \<open>main\<close>
  returns 0 when both downloads return normally, and 1 in every other case, that is
  when one of the two calls of \<open>download_file\<close> raised inside the \<open>try\<close>; the process
  exits with that value.
\<close>

theorem main_exit_code:
  assumes "mkdir_exist_ok w models_dir = Inr w0"
    and "backup_existing w0 = (None, w1, out1)"
  shows "fst (main w) =
           (if \<exists>d wa oa d2 wb ob.
                 download_file w1 onnx_url dest_path = (Inr d, wa, oa)
                 \<and> download_file wa encoder_url encoder_path = (Inr d2, wb, ob)
            then Exit 0 else Exit 1)"
  unfolding main_after_prelude(1)[OF assms] try_block_result by (rule refl)

theorem main_exit_code_witness:
  "fst (main (served (\<lambda>url. Inr sized_body) Map.empty)) =
     (if \<exists>d wa oa d2 wb ob.
           download_file ((served (\<lambda>url. Inr sized_body) Map.empty)\<lparr>fs := [models_dir \<mapsto> Dir]\<rparr>)
             onnx_url dest_path = (Inr d, wa, oa)
           \<and> download_file wa encoder_url encoder_path = (Inr d2, wb, ob)
      then Exit 0 else Exit 1)"
proof -
  have h1: "mkdir_exist_ok (served (\<lambda>url. Inr sized_body) Map.empty) models_dir =
         Inr ((served (\<lambda>url. Inr sized_body) Map.empty)\<lparr>fs := [models_dir \<mapsto> Dir]\<rparr>)"
    by (simp add: main_defs run_defs)
  have h2: "backup_existing ((served (\<lambda>url. Inr sized_body) Map.empty)\<lparr>fs := [models_dir \<mapsto> Dir]\<rparr>) =
         (None, (served (\<lambda>url. Inr sized_body) Map.empty)\<lparr>fs := [models_dir \<mapsto> Dir]\<rparr>, [])"
    by (simp add: main_defs run_defs)
  show ?thesis
    by (rule main_exit_code[OF h1 h2])
qed

lemma model_paths:
  assumes "fs w models_dir = Some Dir"
  shows "parent_error w existing_model = None" "parent_error w backup_path = None"
    "look w existing_model = fs w existing_model" "look w backup_path = fs w backup_path"
  using assms
  by (simp_all add: parent_error_def look_def existing_model_def backup_path_def models_dir_def)

lemma rename_model:
  assumes "fs w models_dir = Some Dir"
    and "fs w existing_model = Some (File old)"
    and "fs w backup_path \<noteq> Some Dir"
    and "fault w (Rename existing_model backup_path) = None"
  shows "os_rename w existing_model backup_path
           = Inr (w\<lparr>fs := move (fs w) existing_model backup_path\<rparr>)"
proof -
  have paths: "existing_model \<noteq> []" "backup_path \<noteq> []" "existing_model \<noteq> backup_path"
    by (simp_all add: existing_model_def backup_path_def models_dir_def)
  note l = model_paths[OF assms(1)]
  show ?thesis
  proof (cases "fs w backup_path")
    case None
    then show ?thesis
      using paths l assms(2,4) by (simp add: os_rename_def renamed_def)
  next
    case (Some n)
    with assms(3) obtain b where "n = File b" by (cases n) auto
    with Some show ?thesis
      using paths l assms(2,4) by (simp add: os_rename_def renamed_def)
  qed
qed

lemma move_model:
  "move m existing_model backup_path backup_path = m existing_model"
  "move m existing_model backup_path existing_model = None"
  by (simp_all add: move_def existing_model_def backup_path_def models_dir_def)

text \<open>
  Claim C1, as the code has it. When \<open>main\<close> starts with a file at
  \<open>models/trocr.onnx\<close>, that file is renamed to \<open>models/trocr_pytorch.pth\<close> before the
  first download begins: the downloads start in a world where the backup path holds the
  old content and the destination is gone, whatever file was at the backup path before
  is replaced without a word, and the backup is still there when \<open>main\<close> ends. Only
  this one destination is backed up.
\<close>

text \<open>
  Claim C1, as the code has it. When \<open>main\<close> starts with a file at
  \<open>models/trocr.onnx\<close>, that file is renamed to \<open>models/trocr_pytorch.pth\<close> before the
  first download begins: the downloads start in a world where the backup path holds the
  old content and the destination is gone, whatever file was at the backup path before
  is replaced without a word, and the backup is still there when \<open>main\<close> ends. Only
  this one destination is backed up.
\<close>

theorem main_backup:
  assumes "fs w models_dir = Some Dir"
    and "fs w existing_model = Some (File old)"
    and "fs w backup_path \<noteq> Some Dir"
    and "fault w (Rename existing_model backup_path) = None"
  shows "\<exists>w1. mkdir_exist_ok w models_dir = Inr w
           \<and> backup_existing w = (None, w1, [BackingUp backup_path])
           \<and> fs w1 backup_path = Some (File old)
           \<and> fs w1 existing_model = None
           \<and> fst (snd (main w)) = fst (snd (try_block w1))
           \<and> fs (fst (snd (main w))) backup_path = Some (File old)"
proof -
  let ?w1 = "w\<lparr>fs := move (fs w) existing_model backup_path\<rparr>"
  have mk: "mkdir_exist_ok w models_dir = Inr w"
    using assms(1) by (simp add: mkdir_exist_ok_def look_def parent_error_def models_dir_def)
  have ex: "exists w existing_model"
    using assms(2) model_paths[OF assms(1)] by (simp add: exists_def)
  have bk: "backup_existing w = (None, ?w1, [BackingUp backup_path])"
    using ex rename_model[OF assms] by (simp add: backup_existing_def)
  have at_backup: "fs ?w1 backup_path = Some (File old)"
    using assms(2) by (simp add: move_model)
  have at_model: "fs ?w1 existing_model = None"
    by (simp add: move_model)
  have final: "fst (snd (main w)) = fst (snd (try_block ?w1))"
    by (rule main_after_prelude(2)[OF mk bk])
  have "fs (fst (snd (main w))) backup_path = Some (File old)"
    unfolding final try_block_world by (rule at_backup)
  with mk bk at_backup at_model final show ?thesis
    by blast
qed

theorem main_backup_witness:
  "\<exists>w1. mkdir_exist_ok
           (served (\<lambda>url. Inr sized_body)
              [models_dir \<mapsto> Dir, existing_model \<mapsto> File [9, 9], backup_path \<mapsto> File [7]])
           models_dir
         = Inr (served (\<lambda>url. Inr sized_body)
              [models_dir \<mapsto> Dir, existing_model \<mapsto> File [9, 9], backup_path \<mapsto> File [7]])
     \<and> backup_existing
           (served (\<lambda>url. Inr sized_body)
              [models_dir \<mapsto> Dir, existing_model \<mapsto> File [9, 9], backup_path \<mapsto> File [7]])
         = (None, w1, [BackingUp backup_path])
     \<and> fs w1 backup_path = Some (File [9, 9])
     \<and> fs w1 existing_model = None
     \<and> fst (snd (main
           (served (\<lambda>url. Inr sized_body)
              [models_dir \<mapsto> Dir, existing_model \<mapsto> File [9, 9], backup_path \<mapsto> File [7]])))
         = fst (snd (try_block w1))
     \<and> fs (fst (snd (main
           (served (\<lambda>url. Inr sized_body)
              [models_dir \<mapsto> Dir, existing_model \<mapsto> File [9, 9], backup_path \<mapsto> File [7]]))))
          backup_path
         = Some (File [9, 9])"
proof -
  let ?w = "served (\<lambda>url. Inr sized_body)
              [models_dir \<mapsto> Dir, existing_model \<mapsto> File [9, 9], backup_path \<mapsto> File [7]]"
  have h1: "fs ?w models_dir = Some Dir"
    by (simp add: served_def quiet_def models_dir_def existing_model_def backup_path_def)
  have h2: "fs ?w existing_model = Some (File [9, 9])"
    by (simp add: served_def quiet_def models_dir_def existing_model_def backup_path_def)
  have h3: "fs ?w backup_path \<noteq> Some Dir"
    by (simp add: served_def quiet_def)
  have h4: "fault ?w (Rename existing_model backup_path) = None"
    by (simp add: served_def quiet_def)
  show ?thesis
    by (rule main_backup[OF h1 h2 h3 h4])
qed

text \<open>
  Against claim C1 as stated: the second download of \<open>main\<close> writes to
  \<open>models/trocr_encoder.onnx\<close>. A file that is there before the run is overwritten by
  the new content and no path holds its old bytes afterwards.
\<close>

text \<open>
  Against claim C1 as stated: the second download of \<open>main\<close> writes to
  \<open>models/trocr_encoder.onnx\<close>. A file that is there before the run is overwritten by
  the new content and no path holds its old bytes afterwards.
\<close>

theorem encoder_not_backed_up:
  "fs (served (\<lambda>url. Inr sized_body) [models_dir \<mapsto> Dir, encoder_path \<mapsto> File [9, 9]])
      encoder_path = Some (File [9, 9])
   \<and> fst (main (served (\<lambda>url. Inr sized_body) [models_dir \<mapsto> Dir, encoder_path \<mapsto> File [9, 9]]))
       = Exit 0
   \<and> fst (snd (main
        (served (\<lambda>url. Inr sized_body) [models_dir \<mapsto> Dir, encoder_path \<mapsto> File [9, 9]])))
       = (served (\<lambda>url. Inr sized_body) [models_dir \<mapsto> Dir, encoder_path \<mapsto> File [9, 9]])
          \<lparr>fs := [models_dir \<mapsto> Dir, encoder_path \<mapsto> File [1, 2, 3, 4, 5],
                  dest_path \<mapsto> File [1, 2, 3, 4, 5]]\<rparr>"
  by (simp add: main_defs run_defs sized_body_def fun_upd_twist)

text \<open>A directory at \<open>models/trocr.onnx\<close> cannot replace a backup directory that has
  something in it: the rename raises and \<open>main\<close> dies before any download.\<close>

lemma main_rename_nonempty:
  "fst (main (quiet [models_dir \<mapsto> Dir, existing_model \<mapsto> Dir, backup_path \<mapsto> Dir,
                     backup_path @ [''old.bin''] \<mapsto> File [7]]))
     = Uncaught OSError"
proof -
  let ?m = "[models_dir \<mapsto> Dir, existing_model \<mapsto> Dir, backup_path \<mapsto> Dir,
             backup_path @ [''old.bin''] \<mapsto> File [7]]"
  have "?m (backup_path @ [''old.bin'']) \<noteq> None" by simp
  then have "nonempty_dir ?m backup_path"
    unfolding nonempty_dir_def by (intro exI[of _ "[''old.bin'']"]) simp
  then have "nonempty_dir (fs (quiet ?m)) backup_path"
    by (simp add: quiet_def)
  moreover have "mkdir_exist_ok (quiet ?m) models_dir = Inr (quiet ?m)"
    by (simp add: mkdir_exist_ok_def look_def parent_error_def quiet_def models_dir_def
          existing_model_def backup_path_def)
  moreover have "exists (quiet ?m) existing_model"
    by (simp add: exists_def look_def parent_error_def quiet_def models_dir_def
          existing_model_def backup_path_def)
  moreover have "look (quiet ?m) existing_model = Some Dir"
    "look (quiet ?m) backup_path = Some Dir"
    "parent_error (quiet ?m) existing_model = None" "parent_error (quiet ?m) backup_path = None"
    by (simp_all add: look_def parent_error_def quiet_def models_dir_def
          existing_model_def backup_path_def)
  moreover have "existing_model \<noteq> []" "backup_path \<noteq> []" "existing_model \<noteq> backup_path"
    by (simp_all add: existing_model_def backup_path_def models_dir_def)
  ultimately show ?thesis
    by (simp add: main_def backup_existing_def os_rename_def)
qed

section \<open>The process runners\<close>





end
